theory Spec2Isabelle
  imports Complex_Main "HOL-Library.Log_Nat" "HOL-Library.Sublist"
begin

section \<open>Strings\<close>

text \<open>
  A Go string is a sequence of bytes and \<open>len\<close> counts bytes, so a Go string is a
  \<^typ>\<open>string\<close> here (a list of 8-bit characters) and \<open>len\<close> is \<^const>\<open>length\<close>.
  The non-ASCII literals of \<open>main.go\<close> are written as their UTF-8 bytes.
\<close>

definition nl :: string where
  "nl = [CHR 0x0A]"

definition emoji_siren :: string where
  \<comment> \<open>U+1F6A8\<close>
  "emoji_siren = [CHR 0xF0, CHR 0x9F, CHR 0x9A, CHR 0xA8]"

definition emoji_warning :: string where
  \<comment> \<open>U+26A0 U+FE0F\<close>
  "emoji_warning = [CHR 0xE2, CHR 0x9A, CHR 0xA0, CHR 0xEF, CHR 0xB8, CHR 0x8F]"

definition emoji_check :: string where
  \<comment> \<open>U+2705\<close>
  "emoji_check = [CHR 0xE2, CHR 0x9C, CHR 0x85]"

definition emoji_cross :: string where
  \<comment> \<open>U+274C\<close>
  "emoji_cross = [CHR 0xE2, CHR 0x9D, CHR 0x8C]"

definition emoji_door :: string where
  \<comment> \<open>U+1F6AA\<close>
  "emoji_door = [CHR 0xF0, CHR 0x9F, CHR 0x9A, CHR 0xAA]"

definition block_full :: string where
  \<comment> \<open>U+2588\<close>
  "block_full = [CHR 0xE2, CHR 0x96, CHR 0x88]"

definition block_light :: string where
  \<comment> \<open>U+2591\<close>
  "block_light = [CHR 0xE2, CHR 0x96, CHR 0x91]"

definition bullet :: string where
  \<comment> \<open>U+2022\<close>
  "bullet = [CHR 0xE2, CHR 0x80, CHR 0xA2]"

text \<open>Decimal digits of a natural number, as \<open>%d\<close> prints them.\<close>

fun digits :: "nat \<Rightarrow> string" where
  "digits n = (if n < 10 then [char_of (48 + n)]
               else digits (n div 10) @ [char_of (48 + n mod 10)])"

declare digits.simps [simp del]

definition fmt_d :: "int \<Rightarrow> string" where
  "fmt_d i = (if i < 0 then ''-'' @ digits (nat (- i)) else digits (nat i))"

section \<open>The type float64\<close>

text \<open>
  A float64 is a finite value (a rational; \<open>Finite 0\<close> is the positive zero), the
  negative zero, an infinity or a NaN. The arithmetic of Go on float64 is that of
  IEEE 754 binary64 with rounding to nearest, ties to even: 53 bits of precision, the
  least exponent of a unit in the last place is -1074, and a result of magnitude
  \<open>2 ^ 1024\<close> or more after rounding is an infinity.
\<close>

datatype float64 = Finite rat | NegZero | PosInf | NegInf | NaN

definition pow2 :: "int \<Rightarrow> rat" where
  "pow2 e = (if 0 \<le> e then 2 ^ nat e else 1 / 2 ^ nat (- e))"

definition ilog2 :: "rat \<Rightarrow> int" where
  \<comment> \<open>for \<open>0 < r\<close>, the integer \<open>k\<close> with \<open>2 ^ k \<le> r < 2 ^ (k + 1)\<close>\<close>
  "ilog2 r = (case quotient_of r of (p, q) \<Rightarrow>
     let k = bitlen p - bitlen q in if pow2 k \<le> r then k else k - 1)"

definition round_half_even :: "rat \<Rightarrow> int" where
  "round_half_even q = (let f = \<lfloor>q\<rfloor>; d = q - of_int f in
     if d < 1 / 2 then f else if 1 / 2 < d then f + 1 else if even f then f else f + 1)"

definition f64_zero :: "bool \<Rightarrow> float64" where
  "f64_zero s = (if s then NegZero else Finite 0)"

definition f64_inf :: "bool \<Rightarrow> float64" where
  "f64_inf s = (if s then NegInf else PosInf)"

definition f64_round :: "bool \<Rightarrow> rat \<Rightarrow> float64" where
  \<comment> \<open>the float64 nearest to the magnitude \<open>r\<close>, with sign \<open>s\<close> (true: negative)\<close>
  "f64_round s r =
     (if r \<le> 0 then f64_zero s
      else let e = max (- 1074) (ilog2 r - 52);
               m = round_half_even (r / pow2 e);
               v = of_int m * pow2 e
           in if pow2 1024 \<le> v then f64_inf s
              else if m = 0 then f64_zero s
              else Finite (if s then - v else v))"

definition f64_of_rat :: "rat \<Rightarrow> float64" where
  \<comment> \<open>a numeric constant of the source, converted to float64\<close>
  "f64_of_rat r = f64_round (r < 0) \<bar>r\<bar>"

fun f64_sign :: "float64 \<Rightarrow> bool" where
  "f64_sign (Finite r) = (r < 0)"
| "f64_sign NegZero = True"
| "f64_sign PosInf = False"
| "f64_sign NegInf = True"
| "f64_sign NaN = False"

fun f64_mag :: "float64 \<Rightarrow> rat option" where
  \<comment> \<open>the magnitude; \<open>None\<close> for an infinity\<close>
  "f64_mag (Finite r) = Some \<bar>r\<bar>"
| "f64_mag NegZero = Some 0"
| "f64_mag PosInf = None"
| "f64_mag NegInf = None"
| "f64_mag NaN = None"

definition f64_mul :: "float64 \<Rightarrow> float64 \<Rightarrow> float64" where
  "f64_mul x y =
     (if x = NaN \<or> y = NaN then NaN
      else let s = (f64_sign x \<noteq> f64_sign y) in
        case (f64_mag x, f64_mag y) of
          (Some a, Some b) \<Rightarrow> f64_round s (a * b)
        | (None, Some b) \<Rightarrow> if b = 0 then NaN else f64_inf s
        | (Some a, None) \<Rightarrow> if a = 0 then NaN else f64_inf s
        | (None, None) \<Rightarrow> f64_inf s)"

fun f64_rank :: "float64 \<Rightarrow> int" where
  "f64_rank NegInf = - 1"
| "f64_rank PosInf = 1"
| "f64_rank _ = 0"

fun f64_val :: "float64 \<Rightarrow> rat" where
  \<comment> \<open>the value of a finite float64 (0 for the others)\<close>
  "f64_val (Finite r) = r"
| "f64_val _ = 0"

definition f64_gt :: "float64 \<Rightarrow> float64 \<Rightarrow> bool" where
  \<comment> \<open>\<open>x > y\<close>: false when either side is a NaN; the two zeros are equal\<close>
  "f64_gt x y =
     (x \<noteq> NaN \<and> y \<noteq> NaN \<and>
      (f64_rank y < f64_rank x \<or> f64_rank x = 0 \<and> f64_rank y = 0 \<and> f64_val y < f64_val x))"

definition trunc_rat :: "rat \<Rightarrow> int" where
  "trunc_rat r = (if 0 \<le> r then \<lfloor>r\<rfloor> else \<lceil>r\<rceil>)"

definition go_int :: "(float64 \<Rightarrow> int) \<Rightarrow> float64 \<Rightarrow> int" where
  \<comment> \<open>the conversion \<open>int(x)\<close> to the 64-bit \<open>int\<close>: the fraction is discarded; where the
      result is not representable the value is implementation-dependent, given by \<open>impl\<close>\<close>
  "go_int impl x =
     (case x of
        Finite r \<Rightarrow> (let t = trunc_rat r in
                      if - (2 ^ 63) \<le> t \<and> t < 2 ^ 63 then t else impl x)
      | NegZero \<Rightarrow> 0
      | _ \<Rightarrow> impl x)"

definition fmt_f0 :: "float64 \<Rightarrow> string" where
  \<comment> \<open>the verb \<open>%.0f\<close>: the exact value rounded to an integer, ties to even\<close>
  "fmt_f0 x =
     (case x of
        Finite r \<Rightarrow> (if r < 0 then ''-'' else '''') @ digits (nat (round_half_even \<bar>r\<bar>))
      | NegZero \<Rightarrow> ''-0''
      | PosInf \<Rightarrow> ''+Inf''
      | NegInf \<Rightarrow> ''-Inf''
      | NaN \<Rightarrow> ''NaN'')"

section \<open>The data model\<close>

record Config =
  BackendURL :: string

record AnalyzeRequest =
  Text :: string

record AnalyzeResponse =
  IsMisinformation :: bool
  Confidence :: float64
  IsNews :: bool
  Summary :: string
  Evidence :: "string list"
  SourcesChecked :: "string list"
  Recommendation :: string
  MessageType :: string

section \<open>formatResponse\<close>

text \<open>The loop \<open>for i := 0; i < 10; i++\<close> that builds the confidence bar.\<close>

function bar_loop :: "int \<Rightarrow> int \<Rightarrow> string \<Rightarrow> string" where
  "bar_loop i filled bar =
     (if i < 10 then bar_loop (i + 1) filled (bar @ (if i < filled then block_full else block_light))
      else bar)"
  by pat_completeness auto
termination
  by (relation "measure (\<lambda>(i, filled, bar). nat (10 - i))") auto

declare bar_loop.simps [simp del]

text \<open>
  The loops \<open>for i, e := range result.Evidence\<close> and \<open>for i, s := range
  result.SourcesChecked\<close>, which have the same body: stop at index 3, else append a
  bullet line to the response.
\<close>

fun range_loop :: "nat \<Rightarrow> string list \<Rightarrow> string \<Rightarrow> string" where
  "range_loop i [] response = response"
| "range_loop i (e # es) response =
     (if 3 \<le> i then response
      else range_loop (i + 1) es (response @ bullet @ '' '' @ e @ nl))"

definition verdict_label :: "AnalyzeResponse \<Rightarrow> string \<times> string" where
  \<comment> \<open>the emoji and the status, lines 96 to 109\<close>
  "verdict_label result =
     (if IsMisinformation result then
        (if f64_gt (Confidence result) (f64_of_rat (7 / 10))
         then (emoji_siren, ''LIKELY MISINFORMATION'')
         else (emoji_warning, ''POTENTIALLY MISLEADING''))
      else (emoji_check, ''APPEARS CREDIBLE''))"

definition confidence_bar :: "(float64 \<Rightarrow> int) \<Rightarrow> float64 \<Rightarrow> string" where
  \<comment> \<open>the confidence bar, lines 111 to 120\<close>
  "confidence_bar impl confidence =
     (let filled = go_int impl (f64_mul confidence (Finite 10))
      in bar_loop 0 filled [])"

definition formatResponse :: "(float64 \<Rightarrow> int) \<Rightarrow> AnalyzeResponse \<Rightarrow> string" where
  "formatResponse impl result =
     (let (emoji, status) = verdict_label result;
          bar = confidence_bar impl (Confidence result);
          response = emoji @ '' *'' @ status @ ''*'' @ nl @ nl @ ''*Confidence:* ['' @ bar @ ''] ''
                     @ fmt_f0 (f64_mul (Confidence result) (Finite 100)) @ ''%'' @ nl;
          response = (if Summary result \<noteq> []
                      then response @ nl @ ''*Summary:*'' @ nl @ Summary result @ nl
                      else response);
          response = (if 0 < length (Evidence result)
                      then range_loop 0 (Evidence result) (response @ nl @ ''*Evidence:*'' @ nl)
                      else response);
          response = (if 0 < length (SourcesChecked result)
                      then range_loop 0 (SourcesChecked result) (response @ nl @ ''*Sources:*'' @ nl)
                      else response);
          response = (if Recommendation result \<noteq> []
                      then response @ nl @ ''*Recommendation:*'' @ nl @ Recommendation result @ nl
                      else response)
      in response @ nl @ ''_Always verify important news from multiple credible sources._'')"

section \<open>Messages and events of the client library\<close>

text \<open>
  The types of the WhatsApp client library that \<open>main.go\<close> reads and builds. A pointer
  field of a protobuf message is an option (\<open>None\<close> is nil); only the fields the
  program touches are kept. A JID is represented by the result of its \<open>String\<close> method,
  an image message by an opaque descriptor of the media.
\<close>

datatype JID = MkJID (String: string)

datatype waE2E_ImageMessage = MkImageMessage string

datatype waE2E_Message =
  MkMessage (Conversation: "string option")
            (ImageMessage: "waE2E_ImageMessage option")
            (ExtendedTextMessage: "waE2E_ExtendedTextMessage option")
and waE2E_ExtendedTextMessage =
  MkExtendedTextMessage (ExtText: "string option") (ContextInfo: "waE2E_ContextInfo option")
and waE2E_ContextInfo =
  MkContextInfo (StanzaID: "string option") (Participant: "string option")
                (QuotedMessage: "waE2E_Message option")

record MessageInfo =
  ID :: string
  Sender :: JID
  Chat :: JID
  IsFromMe :: bool

record events_Message =
  Info :: MessageInfo
  Message :: "waE2E_Message option"

datatype event =
  EvMessage events_Message | EvConnected | EvDisconnected | EvLoggedOut | EvOther

text \<open>The generated getters, which accept a nil receiver.\<close>

definition GetImageMessage :: "waE2E_Message option \<Rightarrow> waE2E_ImageMessage option" where
  "GetImageMessage m = (case m of None \<Rightarrow> None | Some x \<Rightarrow> ImageMessage x)"

definition GetConversation :: "waE2E_Message option \<Rightarrow> string" where
  "GetConversation m =
     (case m of None \<Rightarrow> [] | Some x \<Rightarrow> (case Conversation x of None \<Rightarrow> [] | Some s \<Rightarrow> s))"

definition GetExtendedTextMessage :: "waE2E_Message option \<Rightarrow> waE2E_ExtendedTextMessage option" where
  "GetExtendedTextMessage m = (case m of None \<Rightarrow> None | Some x \<Rightarrow> ExtendedTextMessage x)"

definition GetText :: "waE2E_ExtendedTextMessage option \<Rightarrow> string" where
  "GetText e =
     (case e of None \<Rightarrow> [] | Some x \<Rightarrow> (case ExtText x of None \<Rightarrow> [] | Some s \<Rightarrow> s))"

section \<open>The environment of the program and its effects\<close>

record http_Request =
  Method :: string
  URL :: string
  ContentType :: string
  ReqBody :: string

record http_Response =
  StatusCode :: int
  Body :: string

text \<open>
  Everything outside the program is a field of the record \<open>world\<close>: the process
  environment, and the answer of each library call the program makes. An \<open>error\<close> of
  Go is the string of its message; \<open>Inl\<close> carries it.
\<close>

record world =
  environ :: "string \<rightharpoonup> string"
  json_Marshal :: "AnalyzeRequest \<Rightarrow> string + string"
  http_roundtrip :: "http_Request \<Rightarrow> string + http_Response"
  json_Decode :: "string \<Rightarrow> string + AnalyzeResponse"
  mp_CreateFormFile :: "string \<Rightarrow> string \<Rightarrow> string + string"
  mp_Write :: "string \<Rightarrow> string \<Rightarrow> string + string"
  mp_Close :: "string \<Rightarrow> string + string"
  mp_FormDataContentType :: string
  http_NewRequest :: "string \<Rightarrow> string \<Rightarrow> string \<Rightarrow> string option"
  client_Download :: "waE2E_ImageMessage \<Rightarrow> string + string"
  client_SendMessage :: "JID \<Rightarrow> waE2E_Message \<Rightarrow> string option"
  int_conv :: "float64 \<Rightarrow> int"

text \<open>
  What a handler does to the outside, in order: a line printed to standard output, an
  HTTP request sent to the backend, a download of media, a message handed to the
  client for sending.
\<close>

datatype effect =
  Print string
| BackendCall http_Request
| DownloadCall waE2E_ImageMessage
| Send JID waE2E_Message

fun is_backend_call :: "effect \<Rightarrow> bool" where
  "is_backend_call (BackendCall _) = True"
| "is_backend_call _ = False"

fun is_send :: "effect \<Rightarrow> bool" where
  "is_send (Send _ _) = True"
| "is_send _ = False"

fun sent_text :: "effect \<Rightarrow> string option" where
  \<comment> \<open>the text of an outgoing message\<close>
  "sent_text (Send _ m) = (case ExtendedTextMessage m of None \<Rightarrow> None | Some e \<Rightarrow> ExtText e)"
| "sent_text _ = None"

section \<open>Configuration\<close>

definition os_Getenv :: "world \<Rightarrow> string \<Rightarrow> string" where
  \<comment> \<open>the value of the variable, empty when it is not present\<close>
  "os_Getenv w key = (case environ w key of None \<Rightarrow> [] | Some v \<Rightarrow> v)"

definition getEnv :: "world \<Rightarrow> string \<Rightarrow> string \<Rightarrow> string" where
  "getEnv w key defaultValue =
     (let v = os_Getenv w key in if v \<noteq> [] then v else defaultValue)"

definition init_config :: "world \<Rightarrow> Config" where
  "init_config w = \<lparr>BackendURL = getEnv w ''BACKEND_URL'' ''http://localhost:8000''\<rparr>"

section \<open>The backend calls\<close>

definition read_response ::
  "world \<Rightarrow> http_Response \<Rightarrow> string + AnalyzeResponse" where
  \<comment> \<open>the common end of \<open>analyzeText\<close> and \<open>analyzeImage\<close>: status check, then decoding\<close>
  "read_response w resp =
     (if StatusCode resp \<noteq> 200 then Inl (''backend returned status '' @ fmt_d (StatusCode resp))
      else case json_Decode w (Body resp) of
             Inl err \<Rightarrow> Inl (''failed to decode response: '' @ err)
           | Inr result \<Rightarrow> Inr result)"

definition text_request :: "Config \<Rightarrow> string \<Rightarrow> http_Request" where
  \<comment> \<open>the request of \<open>http.Post(url, "application/json", body)\<close>\<close>
  "text_request config jsonBody =
     \<lparr>Method = ''POST'', URL = BackendURL config @ ''/analyze/text'',
      ContentType = ''application/json'', ReqBody = jsonBody\<rparr>"

definition analyzeText ::
  "world \<Rightarrow> Config \<Rightarrow> string \<Rightarrow> effect list \<times> (string + AnalyzeResponse)" where
  "analyzeText w config text =
     (case json_Marshal w \<lparr>Text = text\<rparr> of
        Inl err \<Rightarrow> ([], Inl (''failed to marshal request: '' @ err))
      | Inr jsonBody \<Rightarrow>
          (let req = text_request config jsonBody
           in case http_roundtrip w req of
                Inl err \<Rightarrow> ([BackendCall req], Inl (''failed to call backend: '' @ err))
              | Inr resp \<Rightarrow> ([BackendCall req], read_response w resp)))"

definition analyzeImage ::
  "world \<Rightarrow> Config \<Rightarrow> string \<Rightarrow> effect list \<times> (string + AnalyzeResponse)" where
  "analyzeImage w config imageData =
     (case mp_CreateFormFile w ''file'' ''image.jpg'' of
        Inl err \<Rightarrow> ([], Inl (''failed to create form file: '' @ err))
      | Inr part \<Rightarrow>
     (case mp_Write w part imageData of
        Inl err \<Rightarrow> ([], Inl (''failed to write image data: '' @ err))
      | Inr written \<Rightarrow>
     (case mp_Close w written of
        Inl err \<Rightarrow> ([], Inl (''failed to close writer: '' @ err))
      | Inr buf \<Rightarrow>
     (let url = BackendURL config @ ''/analyze/image'' in
      case http_NewRequest w ''POST'' url buf of
        Some err \<Rightarrow> ([], Inl (''failed to create request: '' @ err))
      | None \<Rightarrow>
          (let req = \<lparr>Method = ''POST'', URL = url,
                       ContentType = mp_FormDataContentType w, ReqBody = buf\<rparr>
           in case http_roundtrip w req of
                Inl err \<Rightarrow> ([BackendCall req], Inl (''failed to call backend: '' @ err))
              | Inr resp \<Rightarrow> ([BackendCall req], read_response w resp))))))"

section \<open>The handlers\<close>

definition error_connect :: string where
  "error_connect = emoji_cross @ '' *Error*'' @ nl @ nl
     @ ''Could not connect to the analysis backend. Please try again later.''"

definition error_download :: string where
  "error_download = emoji_cross @ '' *Error*'' @ nl @ nl
     @ ''Could not download the image. Please try again.''"

definition error_analyze_image :: string where
  "error_analyze_image = emoji_cross @ '' *Error*'' @ nl @ nl
     @ ''Could not analyze the image. Please try again later.''"

definition reply_message :: "events_Message \<Rightarrow> string \<Rightarrow> waE2E_Message" where
  \<comment> \<open>the message \<open>sendMessage\<close> builds\<close>
  "reply_message evt text =
     MkMessage None None
       (Some (MkExtendedTextMessage (Some text)
          (Some (MkContextInfo (Some (ID (Info evt)))
                               (Some (String (Sender (Info evt))))
                               (Message evt)))))"

definition sendMessage :: "world \<Rightarrow> events_Message \<Rightarrow> string \<Rightarrow> effect list" where
  "sendMessage w evt text =
     (let msg = reply_message evt text in
      Send (Chat (Info evt)) msg #
      (case client_SendMessage w (Chat (Info evt)) msg of
         Some err \<Rightarrow> [Print (''Error sending message: '' @ err @ nl)]
       | None \<Rightarrow> []))"

definition handleImageMessage :: "world \<Rightarrow> Config \<Rightarrow> events_Message \<Rightarrow> effect list" where
  "handleImageMessage w config evt =
     Print (''Received image from '' @ String (Sender (Info evt)) @ nl) #
     (case GetImageMessage (Message evt) of
        None \<Rightarrow> []
      | Some imgMsg \<Rightarrow>
          DownloadCall imgMsg #
          (case client_Download w imgMsg of
             Inl err \<Rightarrow>
               Print (''Error downloading image: '' @ err @ nl) #
               sendMessage w evt error_download
           | Inr data \<Rightarrow>
               (case analyzeImage w config data of
                  (calls, Inl err) \<Rightarrow>
                    calls @ Print (''Error analyzing image: '' @ err @ nl) #
                    sendMessage w evt error_analyze_image
                | (calls, Inr result) \<Rightarrow>
                    calls @ sendMessage w evt (formatResponse (int_conv w) result))))"

definition message_text :: "waE2E_Message option \<Rightarrow> string" where
  \<comment> \<open>the text \<open>handleMessage\<close> extracts\<close>
  "message_text msg =
     (if GetConversation msg \<noteq> [] then GetConversation msg
      else if GetExtendedTextMessage msg \<noteq> None then GetText (GetExtendedTextMessage msg)
      else [])"

definition handleMessage :: "world \<Rightarrow> Config \<Rightarrow> events_Message \<Rightarrow> effect list" where
  "handleMessage w config evt =
     (let msg = Message evt in
      if GetImageMessage msg \<noteq> None then handleImageMessage w config evt
      else
        let text = message_text msg in
        if length text < 10 then []
        else
          Print (''Received message from '' @ String (Sender (Info evt)) @ '': '' @ text @ nl) #
          (case analyzeText w config text of
             (calls, Inl err) \<Rightarrow>
               calls @ Print (''Error analyzing message: '' @ err @ nl) #
               sendMessage w evt error_connect
           | (calls, Inr result) \<Rightarrow>
               calls @
               (if \<not> IsNews result then [Print (''Not news, ignoring: '' @ text @ nl)]
                else sendMessage w evt (formatResponse (int_conv w) result))))"

definition eventHandler :: "world \<Rightarrow> Config \<Rightarrow> event \<Rightarrow> effect list" where
  "eventHandler w config evt =
     (case evt of
        EvMessage v \<Rightarrow> if \<not> IsFromMe (Info v) then handleMessage w config v else []
      | EvConnected \<Rightarrow> [Print (emoji_check @ '' Connected to WhatsApp!'' @ nl)]
      | EvDisconnected \<Rightarrow> [Print (emoji_cross @ '' Disconnected from WhatsApp'' @ nl)]
      | EvLoggedOut \<Rightarrow> [Print (emoji_door @ '' Logged out from WhatsApp'' @ nl)]
      | EvOther \<Rightarrow> [])"

section \<open>Sample inputs\<close>

text \<open>A backend answer, a world built around it, and a few incoming messages.\<close>

definition sample_response :: "bool \<Rightarrow> AnalyzeResponse" where
  "sample_response news =
     \<lparr>IsMisinformation = True, Confidence = Finite (3 / 4), IsNews = news,
      Summary = ''A forwarded claim about a cure.'',
      Evidence = [''No trial is cited'', ''The source is anonymous'', ''The wording is alarmist'',
                  ''The picture is from another year''],
      SourcesChecked = [''who.int''],
      Recommendation = ''Do not forward.'',
      MessageType = ''text''\<rparr>"

definition sample_json :: "string \<Rightarrow> string" where
  \<comment> \<open>a JSON object with the one member \<open>text\<close>\<close>
  "sample_json text =
     ''{'' @ [CHR 0x22] @ ''text'' @ [CHR 0x22] @ '':'' @ [CHR 0x22] @ text @ [CHR 0x22] @ ''}''"

definition sample_world :: "(string \<rightharpoonup> string) \<Rightarrow> int \<Rightarrow> bool \<Rightarrow> world" where
  \<comment> \<open>the environment, the status the backend answers with, and the \<open>is_news\<close> of its answer\<close>
  "sample_world env status news =
     \<lparr>environ = env,
      json_Marshal = (\<lambda>req. Inr (sample_json (Text req))),
      http_roundtrip = (\<lambda>req. Inr \<lparr>StatusCode = status, Body = ''{}''\<rparr>),
      json_Decode = (\<lambda>body. Inr (sample_response news)),
      mp_CreateFormFile = (\<lambda>field file. Inr (field @ file)),
      mp_Write = (\<lambda>buf data. Inr (buf @ data)),
      mp_Close = (\<lambda>buf. Inr buf),
      mp_FormDataContentType = ''multipart/form-data; boundary=xyz'',
      http_NewRequest = (\<lambda>method url body. None),
      client_Download = (\<lambda>img. Inr ''JFIF''),
      client_SendMessage = (\<lambda>chat msg. None),
      int_conv = (\<lambda>x. - (2 ^ 63))\<rparr>"

definition sample_info :: "bool \<Rightarrow> MessageInfo" where
  "sample_info mine =
     \<lparr>ID = ''3EB0A1'', Sender = MkJID ''911234567890@s.whatsapp.net'',
      Chat = MkJID ''120363000000000000@g.us'', IsFromMe = mine\<rparr>"

definition sample_text_event :: "bool \<Rightarrow> string \<Rightarrow> events_Message" where
  "sample_text_event mine text =
     \<lparr>Info = sample_info mine, Message = Some (MkMessage (Some text) None None)\<rparr>"

definition sample_question :: string where
  "sample_question = ''Is this story about the vaccine true?''"

definition sample_image_event :: events_Message where
  "sample_image_event =
     \<lparr>Info = sample_info False,
      Message = Some (MkMessage None (Some (MkImageMessage ''media-1'')) None)\<rparr>"

definition sample_int_conv :: "float64 \<Rightarrow> int" where
  \<comment> \<open>what the conversion to \<open>int\<close> gives out of range on amd64\<close>
  "sample_int_conv x = - (2 ^ 63)"

definition near_nine_tenths :: float64 where
  \<comment> \<open>the float64 that prints as 0.8999999999999999\<close>
  "near_nine_tenths = Finite (8106479329266892 / 2 ^ 53)"

definition five_e_acute :: string where
  \<comment> \<open>five times U+00E9, ten bytes of UTF-8\<close>
  "five_e_acute = [CHR 0xC3, CHR 0xA9, CHR 0xC3, CHR 0xA9, CHR 0xC3, CHR 0xA9,
                   CHR 0xC3, CHR 0xA9, CHR 0xC3, CHR 0xA9]"

section \<open>Notions of the specification\<close>


definition rune_count :: "string \<Rightarrow> nat" where
  \<comment> \<open>the number of characters (code points) of a UTF-8 string: the bytes that are not
      continuation bytes \<open>10xxxxxx\<close>\<close>
  "rune_count s = length (filter (\<lambda>c. \<not> (128 \<le> (of_char c :: nat) \<and> (of_char c :: nat) < 192)) s)"

definition bullet_section :: "string \<Rightarrow> string list \<Rightarrow> string" where
  \<comment> \<open>a titled list of bullet lines; nothing at all for no items\<close>
  "bullet_section title items =
     (if items = [] then []
      else nl @ title @ nl @ concat (map (\<lambda>e. bullet @ '' '' @ e @ nl) items))"

definition card_head :: "(float64 \<Rightarrow> int) \<Rightarrow> AnalyzeResponse \<Rightarrow> string" where
  \<comment> \<open>the card up to the summary: status line, confidence line, summary\<close>
  "card_head impl r =
     fst (verdict_label r) @ '' *'' @ snd (verdict_label r) @ ''*'' @ nl @ nl
     @ ''*Confidence:* ['' @ confidence_bar impl (Confidence r) @ ''] ''
     @ fmt_f0 (f64_mul (Confidence r) (Finite 100)) @ ''%'' @ nl
     @ (if Summary r = [] then [] else nl @ ''*Summary:*'' @ nl @ Summary r @ nl)"

definition card_tail :: "AnalyzeResponse \<Rightarrow> string" where
  \<comment> \<open>the end of the card: recommendation and closing line\<close>
  "card_tail r =
     (if Recommendation r = [] then [] else nl @ ''*Recommendation:*'' @ nl @ Recommendation r @ nl)
     @ nl @ ''_Always verify important news from multiple credible sources._''"

definition f64_above :: "float64 \<Rightarrow> rat \<Rightarrow> bool" where
  \<comment> \<open>the value is strictly greater than the rational \<open>q\<close>, compared exactly\<close>
  "f64_above x q =
     (case x of Finite r \<Rightarrow> q < r | NegZero \<Rightarrow> q < 0 | PosInf \<Rightarrow> True | _ \<Rightarrow> False)"

definition is_float64 :: "float64 \<Rightarrow> bool" where
  \<comment> \<open>the finite value is one that binary64 represents: rounding leaves it as it is\<close>
  "is_float64 x = (case x of Finite r \<Rightarrow> f64_of_rat r = Finite r | _ \<Rightarrow> True)"

definition f64_in_unit :: "float64 \<Rightarrow> bool" where
  \<comment> \<open>the value lies in the interval from 0 to 1\<close>
  "f64_in_unit x = (case x of Finite q \<Rightarrow> 0 \<le> q \<and> q \<le> 1 | NegZero \<Rightarrow> True | _ \<Rightarrow> False)"

section \<open>What the handlers send and call\<close>

lemma sendMessage_sends:
  "filter is_send (sendMessage w v text) = [Send (Chat (Info v)) (reply_message v text)]"
  by (simp add: sendMessage_def Let_def split: option.splits)

lemma sendMessage_calls:
  "filter is_backend_call (sendMessage w v text) = []"
  by (simp add: sendMessage_def Let_def split: option.splits)

lemma analyzeText_calls:
  "fst (analyzeText w config text) =
     (case json_Marshal w \<lparr>Text = text\<rparr> of
        Inl err \<Rightarrow> []
      | Inr body \<Rightarrow> [BackendCall (text_request config body)])"
  by (simp add: analyzeText_def Let_def split: sum.splits)

lemma analyzeImage_calls:
  "fst (analyzeImage w config data) = [] \<or>
   (\<exists>body. fst (analyzeImage w config data) =
      [BackendCall \<lparr>Method = ''POST'', URL = BackendURL config @ ''/analyze/image'',
                    ContentType = mp_FormDataContentType w, ReqBody = body\<rparr>])"
  by (simp add: analyzeImage_def Let_def split: sum.splits option.splits)


lemma handleMessage_sends:
  assumes "GetImageMessage (Message v) = None"
  shows "filter is_send (handleMessage w config v) =
     (if length (message_text (Message v)) < 10 then []
      else case snd (analyzeText w config (message_text (Message v))) of
             Inl err \<Rightarrow> [Send (Chat (Info v)) (reply_message v error_connect)]
           | Inr result \<Rightarrow>
               if IsNews result
               then [Send (Chat (Info v)) (reply_message v (formatResponse (int_conv w) result))]
               else [])"
proof (cases "analyzeText w config (message_text (Message v))")
  case (Pair calls res)
  then have "filter is_send calls = []"
    using analyzeText_calls [of w config "message_text (Message v)"]
    by (auto split: sum.splits)
  with Pair assms show ?thesis
    by (cases res) (simp_all add: handleMessage_def Let_def sendMessage_sends)
qed

lemma handleMessage_calls:
  assumes "GetImageMessage (Message v) = None"
  shows "filter is_backend_call (handleMessage w config v) =
     (if length (message_text (Message v)) < 10 then []
      else fst (analyzeText w config (message_text (Message v))))"
proof (cases "analyzeText w config (message_text (Message v))")
  case (Pair calls res)
  then have "filter is_backend_call calls = calls"
    using analyzeText_calls [of w config "message_text (Message v)"]
    by (auto split: sum.splits)
  with Pair assms show ?thesis
    by (cases res) (simp_all add: handleMessage_def Let_def sendMessage_calls)
qed

lemma handleImageMessage_sends:
  assumes "GetImageMessage (Message v) = Some img"
  shows "filter is_send (handleImageMessage w config v) =
     [Send (Chat (Info v)) (reply_message v
        (case client_Download w img of
           Inl err \<Rightarrow> error_download
         | Inr data \<Rightarrow> (case snd (analyzeImage w config data) of
                         Inl err \<Rightarrow> error_analyze_image
                       | Inr result \<Rightarrow> formatResponse (int_conv w) result)))]"
proof (cases "client_Download w img")
  case (Inl err)
  with assms show ?thesis
    by (simp add: handleImageMessage_def sendMessage_sends)
next
  case (Inr data)
  obtain calls res where p: "analyzeImage w config data = (calls, res)"
    by (cases "analyzeImage w config data")
  then have "filter is_send calls = []"
    using analyzeImage_calls [of w config data] by auto
  with Inr p assms show ?thesis
    by (cases res) (simp_all add: handleImageMessage_def sendMessage_sends)
qed

lemma handleImageMessage_calls:
  assumes "GetImageMessage (Message v) = Some img"
  shows "filter is_backend_call (handleImageMessage w config v) =
     (case client_Download w img of
        Inl err \<Rightarrow> []
      | Inr data \<Rightarrow> fst (analyzeImage w config data))"
proof (cases "client_Download w img")
  case (Inl err)
  with assms show ?thesis
    by (simp add: handleImageMessage_def sendMessage_calls)
next
  case (Inr data)
  obtain calls res where p: "analyzeImage w config data = (calls, res)"
    by (cases "analyzeImage w config data")
  then have "filter is_backend_call calls = calls"
    using analyzeImage_calls [of w config data] by auto
  with Inr p assms show ?thesis
    by (cases res) (simp_all add: handleImageMessage_def sendMessage_calls)
qed

lemma eventHandler_other:
  "\<not> IsFromMe (Info v) \<Longrightarrow> eventHandler w config (EvMessage v) = handleMessage w config v"
  by (simp add: eventHandler_def)

lemma handleMessage_image:
  "GetImageMessage (Message v) = Some img \<Longrightarrow>
     handleMessage w config v = handleImageMessage w config v"
  by (simp add: handleMessage_def)


text \<open>
  The text of a sample question, the image and the text events built from it, and the
  traces the handlers leave on them, computed once for the examples below.
\<close>

lemma sample_text_event_fields:
  "IsFromMe (Info (sample_text_event mine text)) = mine"
  "GetImageMessage (Message (sample_text_event mine text)) = None"
  "text \<noteq> [] \<Longrightarrow> message_text (Message (sample_text_event mine text)) = text"
  "Chat (Info (sample_text_event mine text)) = MkJID ''120363000000000000@g.us''"
  by (simp_all add: sample_text_event_def sample_info_def GetImageMessage_def message_text_def
      GetConversation_def)

lemma sample_image_event_fields:
  "IsFromMe (Info sample_image_event) = False"
  "GetImageMessage (Message sample_image_event) = Some (MkImageMessage ''media-1'')"
  by (simp_all add: sample_image_event_def sample_info_def GetImageMessage_def)

lemma sample_question_length: "length sample_question = 37" "sample_question \<noteq> []"
  by (simp_all add: sample_question_def)

lemma sample_analyzeText:
  "analyzeText (sample_world env status news) config text =
     ([BackendCall (text_request config (sample_json text))],
      if status \<noteq> 200 then Inl (''backend returned status '' @ fmt_d status)
      else Inr (sample_response news))"
  by (simp add: analyzeText_def sample_world_def read_response_def Let_def)

lemma sample_analyzeImage:
  "snd (analyzeImage (sample_world env status news) config data) =
     (if status \<noteq> 200 then Inl (''backend returned status '' @ fmt_d status)
      else Inr (sample_response news))"
  by (simp add: analyzeImage_def sample_world_def read_response_def Let_def)

lemma sample_world_fields:
  "client_Download (sample_world env status news) img = Inr ''JFIF''"
  "environ (sample_world env status news) = env"
  "json_Marshal (sample_world env status news) req = Inr (sample_json (Text req))"
  "http_roundtrip (sample_world env status news) r = Inr \<lparr>StatusCode = status, Body = ''{}''\<rparr>"
  by (simp_all add: sample_world_def)

section \<open>Messages of the account itself\<close>

text \<open>
  C6. An event for a message that the account itself sent (\<open>IsFromMe\<close>) has no effect
  at all: the handler prints nothing, calls nothing and sends nothing.
\<close>

theorem own_messages_ignored:
  "IsFromMe (Info v) \<Longrightarrow> eventHandler w config (EvMessage v) = []"
  by (simp add: eventHandler_def)

theorem own_messages_ignored_witness:
  "IsFromMe (Info (sample_text_event True sample_question)) \<and>
   eventHandler (sample_world Map.empty 200 True) (init_config (sample_world Map.empty 200 True))
     (EvMessage (sample_text_event True sample_question)) = []"
proof -
  have h: "IsFromMe (Info (sample_text_event True sample_question))"
    by (simp add: sample_text_event_fields)
  show ?thesis using h own_messages_ignored [OF h] by simp
qed

section \<open>Quoted replies\<close>

text \<open>
  C7. Every message the handler sends goes to the chat of the original message and is
  an extended text message whose context info carries the identifier of the original
  message as stanza id, its sender as participant, and the original message as the
  quoted message.
\<close>

theorem replies_quote_original:
  assumes "Send chat m \<in> set (eventHandler w config (EvMessage v))"
  shows "chat = Chat (Info v) \<and>
     (\<exists>text. m = MkMessage None None
        (Some (MkExtendedTextMessage (Some text)
           (Some (MkContextInfo (Some (ID (Info v))) (Some (String (Sender (Info v))))
                    (Message v))))))"
proof -
  from assms have "Send chat m \<in> set (handleMessage w config v)"
    by (simp add: eventHandler_def split: if_splits)
  then have f: "Send chat m \<in> set (filter is_send (handleMessage w config v))"
    by simp
  have "chat = Chat (Info v) \<and> (\<exists>text. m = reply_message v text)"
  proof (cases "GetImageMessage (Message v)")
    case None
    from f show ?thesis
      unfolding handleMessage_sends [OF None]
      by (auto split: if_splits sum.splits)
  next
    case (Some img)
    from f show ?thesis
      unfolding handleMessage_image [OF Some] handleImageMessage_sends [OF Some] by auto
  qed
  then show ?thesis
    by (simp add: reply_message_def)
qed

theorem replies_quote_original_witness:
  "Send (MkJID ''120363000000000000@g.us'')
        (reply_message (sample_text_event False sample_question) error_connect)
     \<in> set (eventHandler (sample_world Map.empty 503 True) \<lparr>BackendURL = ''http://b''\<rparr>
               (EvMessage (sample_text_event False sample_question)))
   \<and> (\<exists>text. reply_message (sample_text_event False sample_question) error_connect
        = MkMessage None None
            (Some (MkExtendedTextMessage (Some text)
               (Some (MkContextInfo (Some ''3EB0A1'') (Some ''911234567890@s.whatsapp.net'')
                  (Some (MkMessage (Some sample_question) None None)))))))"
proof -
  let ?v = "sample_text_event False sample_question"
  let ?T = "eventHandler (sample_world Map.empty 503 True) \<lparr>BackendURL = ''http://b''\<rparr> (EvMessage ?v)"
  have "filter is_send ?T = [Send (Chat (Info ?v)) (reply_message ?v error_connect)]"
    by (simp add: eventHandler_other handleMessage_sends sample_text_event_fields
        sample_question_length sample_analyzeText)
  then have "Send (Chat (Info ?v)) (reply_message ?v error_connect) \<in> set (filter is_send ?T)"
    by simp
  then have h: "Send (MkJID ''120363000000000000@g.us'') (reply_message ?v error_connect) \<in> set ?T"
    by (simp add: sample_text_event_fields)
  have "\<exists>text. reply_message ?v error_connect
        = MkMessage None None
            (Some (MkExtendedTextMessage (Some text)
               (Some (MkContextInfo (Some (ID (Info ?v))) (Some (String (Sender (Info ?v))))
                  (Message ?v)))))"
    using replies_quote_original [OF h] by blast
  then have "\<exists>text. reply_message ?v error_connect
        = MkMessage None None
            (Some (MkExtendedTextMessage (Some text)
               (Some (MkContextInfo (Some ''3EB0A1'') (Some ''911234567890@s.whatsapp.net'')
                  (Some (MkMessage (Some sample_question) None None))))))"
    by (simp add: sample_text_event_def sample_info_def)
  with h show ?thesis by simp
qed

section \<open>Image messages\<close>



section \<open>Answers that are not news\<close>

text \<open>
  On the text path an answer of the backend with \<open>is_news\<close> false leaves no reply:
  the handler prints a line and returns.
\<close>

lemma text_not_news_dropped:
  assumes "\<not> IsFromMe (Info v)" and "GetImageMessage (Message v) = None"
    and "snd (analyzeText w config (message_text (Message v))) = Inr result"
    and "\<not> IsNews result"
  shows "filter is_send (eventHandler w config (EvMessage v)) = []"
  unfolding eventHandler_other [OF assms(1)] handleMessage_sends [OF assms(2)]
  using assms(3,4) by simp

text \<open>
  C1. The claim that an answer of the backend with \<open>is_news\<close> false never leads to
  a sent message does not hold on the image path, which has no such test. Here the
  backend answers an image with status 200 and \<open>is_news\<close> false, and the handler
  sends the formatted card as a reply.
\<close>

theorem image_not_news_is_answered:
  "\<not> IsNews (sample_response False) \<and>
   filter is_send (eventHandler (sample_world Map.empty 200 False)
                     \<lparr>BackendURL = ''http://localhost:8000''\<rparr> (EvMessage sample_image_event)) =
     [Send (MkJID ''120363000000000000@g.us'') (reply_message sample_image_event
        (formatResponse (int_conv (sample_world Map.empty 200 False)) (sample_response False)))]"
proof -
  have "filter is_send (handleImageMessage (sample_world Map.empty 200 False)
          \<lparr>BackendURL = ''http://localhost:8000''\<rparr> sample_image_event) =
     [Send (Chat (Info sample_image_event)) (reply_message sample_image_event
        (formatResponse (int_conv (sample_world Map.empty 200 False)) (sample_response False)))]"
    by (simp add: handleImageMessage_sends [OF sample_image_event_fields(2)]
        sample_world_fields sample_analyzeImage)
  then show ?thesis
    by (simp add: eventHandler_other handleMessage_image [OF sample_image_event_fields(2)]
        sample_image_event_fields sample_response_def)
      (simp add: sample_image_event_def sample_info_def)
qed

section \<open>Failures\<close>








section \<open>The backend URL\<close>

text \<open>
  C8. The configuration set up at start takes the backend URL from the environment
  variable \<open>BACKEND_URL\<close>; when the variable is not set (or is empty, which
  \<open>os.Getenv\<close> does not tell apart) the URL is \<open>http://localhost:8000\<close>. Every request
  the handler sends to the backend goes to \<open>/analyze/text\<close> or \<open>/analyze/image\<close> under
  that URL.
\<close>

theorem backend_url_from_environment:
  "BackendURL (init_config w) =
     (case environ w ''BACKEND_URL'' of
        None \<Rightarrow> ''http://localhost:8000''
      | Some u \<Rightarrow> if u = [] then ''http://localhost:8000'' else u) \<and>
   (BackendCall req \<in> set (eventHandler w (init_config w) ev) \<longrightarrow>
      URL req = BackendURL (init_config w) @ ''/analyze/text'' \<or>
      URL req = BackendURL (init_config w) @ ''/analyze/image'')"
proof (intro conjI impI)
  show "BackendURL (init_config w) =
     (case environ w ''BACKEND_URL'' of
        None \<Rightarrow> ''http://localhost:8000''
      | Some u \<Rightarrow> if u = [] then ''http://localhost:8000'' else u)"
    by (simp add: init_config_def getEnv_def os_Getenv_def Let_def split: option.splits)
next
  let ?c = "init_config w"
  assume mem: "BackendCall req \<in> set (eventHandler w ?c ev)"
  then obtain v where ev: "ev = EvMessage v" and other: "\<not> IsFromMe (Info v)"
    by (cases ev) (auto simp: eventHandler_def split: if_splits)
  with mem have "BackendCall req \<in> set (filter is_backend_call (handleMessage w ?c v))"
    by (simp add: eventHandler_other)
  then show "URL req = BackendURL ?c @ ''/analyze/text'' \<or>
             URL req = BackendURL ?c @ ''/analyze/image''"
  proof (cases "GetImageMessage (Message v)")
    case None
    assume "BackendCall req \<in> set (filter is_backend_call (handleMessage w ?c v))"
    then show ?thesis
      unfolding handleMessage_calls [OF None] analyzeText_calls
      by (auto simp: text_request_def split: if_splits sum.splits)
  next
    case (Some img)
    assume "BackendCall req \<in> set (filter is_backend_call (handleMessage w ?c v))"
    then obtain data where "BackendCall req \<in> set (fst (analyzeImage w ?c data))"
      unfolding handleMessage_image [OF Some] handleImageMessage_calls [OF Some]
      by (cases "client_Download w img") auto
    then show ?thesis
      using analyzeImage_calls [of w ?c data] by auto
  qed
qed

theorem backend_url_from_environment_witness:
  "BackendURL (init_config (sample_world [''BACKEND_URL'' \<mapsto> ''http://backend:9000''] 200 True))
     = ''http://backend:9000'' \<and>
   BackendURL (init_config (sample_world Map.empty 200 True)) = ''http://localhost:8000'' \<and>
   BackendCall (text_request \<lparr>BackendURL = ''http://backend:9000''\<rparr> (sample_json sample_question))
     \<in> set (eventHandler (sample_world [''BACKEND_URL'' \<mapsto> ''http://backend:9000''] 200 True)
               (init_config (sample_world [''BACKEND_URL'' \<mapsto> ''http://backend:9000''] 200 True))
               (EvMessage (sample_text_event False sample_question))) \<and>
   URL (text_request \<lparr>BackendURL = ''http://backend:9000''\<rparr> (sample_json sample_question))
     = ''http://backend:9000/analyze/text''"
proof -
  let ?w = "sample_world [''BACKEND_URL'' \<mapsto> ''http://backend:9000''] 200 True"
  let ?e = "sample_world Map.empty 200 True"
  let ?v = "sample_text_event False sample_question"
  let ?req = "text_request \<lparr>BackendURL = ''http://backend:9000''\<rparr> (sample_json sample_question)"
  have u: "BackendURL (init_config ?w) = ''http://backend:9000''"
    using backend_url_from_environment [of ?w ?req "EvMessage ?v", THEN conjunct1]
    by (simp add: sample_world_fields)
  have u0: "BackendURL (init_config ?e) = ''http://localhost:8000''"
    using backend_url_from_environment [of ?e ?req "EvMessage ?v", THEN conjunct1]
    by (simp add: sample_world_fields)
  have c: "init_config ?w = \<lparr>BackendURL = ''http://backend:9000''\<rparr>"
    using u by (cases "init_config ?w") simp
  have "filter is_backend_call (eventHandler ?w (init_config ?w) (EvMessage ?v)) = [BackendCall ?req]"
    unfolding c
    by (simp add: eventHandler_other handleMessage_calls sample_text_event_fields
        sample_question_length sample_analyzeText)
  then have "BackendCall ?req \<in> set (filter is_backend_call (eventHandler ?w (init_config ?w) (EvMessage ?v)))"
    by simp
  then have m: "BackendCall ?req \<in> set (eventHandler ?w (init_config ?w) (EvMessage ?v))"
    by simp
  have "URL ?req = ''http://backend:9000/analyze/text''"
    by (simp add: text_request_def)
  with u u0 m show ?thesis by simp
qed

section \<open>The length gate of the text path\<close>

lemma rune_count_le_length: "rune_count s \<le> length s"
  by (simp add: rune_count_def)

lemma five_e_acute_counts: "rune_count five_e_acute = 5" "length five_e_acute = 10"
  by (simp_all add: rune_count_def five_e_acute_def)

text \<open>
  C2, as stated, fails: the gate \<open>len(text) < 10\<close> counts bytes, not characters. The
  text of five letters U+00E9 has ten bytes, and the handler posts it to the backend.
\<close>

theorem five_characters_reach_backend:
  "rune_count five_e_acute < 10 \<and>
   message_text (Message (sample_text_event False five_e_acute)) = five_e_acute \<and>
   filter is_backend_call
     (eventHandler (sample_world Map.empty 200 True) \<lparr>BackendURL = ''http://localhost:8000''\<rparr>
        (EvMessage (sample_text_event False five_e_acute)))
     = [BackendCall \<lparr>Method = ''POST'', URL = ''http://localhost:8000/analyze/text'',
                     ContentType = ''application/json'',
                     ReqBody = sample_json five_e_acute\<rparr>]"
proof -
  have ne: "five_e_acute \<noteq> []"
    by (simp add: five_e_acute_def)
  show ?thesis
    by (simp add: five_e_acute_counts eventHandler_other handleMessage_calls
        sample_text_event_fields ne sample_analyzeText text_request_def)
qed

text \<open>
  C2, amended. For a message of another sender that is not an image: when the
  extracted text has fewer than 10 bytes the handler does nothing at all; when it has
  10 bytes or more and is encoded as JSON, the handler posts that JSON, with content
  type \<open>application/json\<close>, to \<open>/analyze/text\<close> under the backend URL, once. A text
  never has more characters than bytes, so a text of 10 characters or more is posted.
\<close>

theorem text_length_gate:
  assumes "\<not> IsFromMe (Info v)" and "GetImageMessage (Message v) = None"
  shows "(length (message_text (Message v)) < 10 \<longrightarrow> eventHandler w config (EvMessage v) = []) \<and>
    (10 \<le> length (message_text (Message v)) \<and>
     json_Marshal w \<lparr>Text = message_text (Message v)\<rparr> = Inr body \<longrightarrow>
       filter is_backend_call (eventHandler w config (EvMessage v)) =
         [BackendCall \<lparr>Method = ''POST'', URL = BackendURL config @ ''/analyze/text'',
                        ContentType = ''application/json'', ReqBody = body\<rparr>]) \<and>
    rune_count (message_text (Message v)) \<le> length (message_text (Message v))"
proof (intro conjI impI)
  assume "length (message_text (Message v)) < 10"
  with assms show "eventHandler w config (EvMessage v) = []"
    by (simp add: eventHandler_def handleMessage_def Let_def)
next
  assume "10 \<le> length (message_text (Message v)) \<and>
          json_Marshal w \<lparr>Text = message_text (Message v)\<rparr> = Inr body"
  then show "filter is_backend_call (eventHandler w config (EvMessage v)) =
         [BackendCall \<lparr>Method = ''POST'', URL = BackendURL config @ ''/analyze/text'',
                        ContentType = ''application/json'', ReqBody = body\<rparr>]"
    unfolding eventHandler_other [OF assms(1)] handleMessage_calls [OF assms(2)] analyzeText_calls
    by (simp add: text_request_def)
next
  show "rune_count (message_text (Message v)) \<le> length (message_text (Message v))"
    by (rule rune_count_le_length)
qed

theorem text_length_gate_witness:
  "\<not> IsFromMe (Info (sample_text_event False ''Is it so?'')) \<and>
   length (message_text (Message (sample_text_event False ''Is it so?''))) < 10 \<and>
   eventHandler (sample_world Map.empty 200 True) \<lparr>BackendURL = ''http://b''\<rparr>
     (EvMessage (sample_text_event False ''Is it so?'')) = [] \<and>
   10 \<le> length (message_text (Message (sample_text_event False sample_question))) \<and>
   filter is_backend_call
     (eventHandler (sample_world Map.empty 200 True) \<lparr>BackendURL = ''http://b''\<rparr>
        (EvMessage (sample_text_event False sample_question)))
     = [BackendCall \<lparr>Method = ''POST'', URL = ''http://b/analyze/text'',
                     ContentType = ''application/json'',
                     ReqBody = sample_json sample_question\<rparr>]"
proof -
  let ?w = "sample_world Map.empty 200 True"
  let ?c = "\<lparr>BackendURL = ''http://b''\<rparr>"
  let ?s = "sample_text_event False ''Is it so?''"
  let ?l = "sample_text_event False sample_question"
  have s1: "\<not> IsFromMe (Info ?s)" and s2: "GetImageMessage (Message ?s) = None"
    and s3: "length (message_text (Message ?s)) < 10"
    by (simp_all add: sample_text_event_fields)
  have l1: "\<not> IsFromMe (Info ?l)" and l2: "GetImageMessage (Message ?l) = None"
    and l3: "10 \<le> length (message_text (Message ?l))"
    and l4: "json_Marshal ?w \<lparr>Text = message_text (Message ?l)\<rparr> = Inr (sample_json sample_question)"
    by (simp_all add: sample_text_event_fields sample_question_length sample_world_fields)
  have short: "eventHandler ?w ?c (EvMessage ?s) = []"
    using text_length_gate [OF s1 s2, where w = ?w and config = ?c and body = "[]", THEN conjunct1] s3 by blast
  have long: "filter is_backend_call (eventHandler ?w ?c (EvMessage ?l))
     = [BackendCall \<lparr>Method = ''POST'', URL = BackendURL ?c @ ''/analyze/text'',
                     ContentType = ''application/json'',
                     ReqBody = sample_json sample_question\<rparr>]"
    using text_length_gate [OF l1 l2, where w = ?w and config = ?c
          and body = "sample_json sample_question", THEN conjunct2, THEN conjunct1] l3 l4
    by blast
  from s1 s3 short l3 long show ?thesis by simp
qed

section \<open>Facts about float64\<close>

lemma pow2_powi: "pow2 e = 2 powi e"
  by (simp add: pow2_def power_int_def field_simps)

lemma pow2_pos [simp]: "0 < pow2 e"
  by (simp add: pow2_def)

lemma pow2_add: "pow2 (a + b) = pow2 a * pow2 b"
  by (simp add: pow2_powi power_int_add)

lemma pow2_strict_mono: "a < b \<Longrightarrow> pow2 a < pow2 b"
  by (simp add: pow2_powi power_int_strict_increasing)

lemma pow2_mono: "a \<le> b \<Longrightarrow> pow2 a \<le> pow2 b"
  by (simp add: pow2_powi power_int_increasing)

lemma pow2_nat: "pow2 (int n) = 2 ^ n"
  by (simp add: pow2_def)

lemma pow2_neg_mult: "pow2 (- e) * pow2 e = 1"
  using pow2_add [of "- e" e] by (simp add: pow2_def)

lemma ilog2_bounds:
  assumes "0 < r"
  shows "pow2 (ilog2 r) \<le> r \<and> r < pow2 (ilog2 r + 1)"
proof -
  obtain p q where pq: "quotient_of r = (p, q)"
    by (cases "quotient_of r")
  then have q: "0 < q" and r: "r = of_int p / of_int q"
    by (simp_all add: quotient_of_denom_pos quotient_of_div)
  with assms have p: "0 < p"
    by (simp add: zero_less_divide_iff)
  define k where "k = bitlen p - bitlen q"
  have bp: "2 ^ nat (bitlen p - 1) \<le> p" "p < 2 ^ nat (bitlen p)"
    using bitlen_bounds [OF p] by simp_all
  have bq: "2 ^ nat (bitlen q - 1) \<le> q" "q < 2 ^ nat (bitlen q)"
    using bitlen_bounds [OF q] by simp_all
  have lp: "1 \<le> bitlen p" and lq: "1 \<le> bitlen q"
    using p q by (simp_all add: bitlen_alt_def)
  have P1: "pow2 (bitlen p - 1) \<le> of_int p"
  proof -
    have "pow2 (bitlen p - 1) = of_int (2 ^ nat (bitlen p - 1))"
      using lp by (simp add: pow2_def)
    also have "\<dots> \<le> of_int p"
      using bp(1) by (simp only: of_int_le_iff)
    finally show ?thesis .
  qed
  have P2: "of_int p < pow2 (bitlen p)"
  proof -
    have "(of_int p :: rat) < of_int (2 ^ nat (bitlen p))"
      using bp(2) by (simp only: of_int_less_iff)
    also have "\<dots> = pow2 (bitlen p)"
      using lp by (simp add: pow2_def)
    finally show ?thesis .
  qed
  have Q1: "pow2 (bitlen q - 1) \<le> of_int q"
  proof -
    have "pow2 (bitlen q - 1) = of_int (2 ^ nat (bitlen q - 1))"
      using lq by (simp add: pow2_def)
    also have "\<dots> \<le> of_int q"
      using bq(1) by (simp only: of_int_le_iff)
    finally show ?thesis .
  qed
  have Q2: "of_int q < pow2 (bitlen q)"
  proof -
    have "(of_int q :: rat) < of_int (2 ^ nat (bitlen q))"
      using bq(2) by (simp only: of_int_less_iff)
    also have "\<dots> = pow2 (bitlen q)"
      using lq by (simp add: pow2_def)
    finally show ?thesis .
  qed
  have qpos: "(0::rat) < of_int q" using q by simp
  have low: "pow2 (k - 1) \<le> r"
  proof -
    have "pow2 (k - 1) * of_int q \<le> pow2 (k - 1) * pow2 (bitlen q)"
      using Q2 by (simp add: less_imp_le)
    also have "\<dots> = pow2 (bitlen p - 1)"
      by (simp add: k_def pow2_add [symmetric])
    also have "\<dots> \<le> of_int p" by (rule P1)
    finally show ?thesis
      using qpos by (simp add: r pos_le_divide_eq)
  qed
  have high: "r < pow2 (k + 1)"
  proof -
    have "of_int p < pow2 (bitlen p)" by (rule P2)
    also have "\<dots> = pow2 (k + 1) * pow2 (bitlen q - 1)"
      by (simp add: k_def pow2_add [symmetric])
    also have "\<dots> \<le> pow2 (k + 1) * of_int q"
      using Q1 by simp
    finally show ?thesis
      using qpos by (simp add: r pos_divide_less_eq)
  qed
  show ?thesis
    using low high
    by (simp add: ilog2_def pq k_def [symmetric] Let_def not_le)
qed

lemma ilog2_unique:
  assumes "0 < r" and "pow2 k \<le> r" and "r < pow2 (k + 1)"
  shows "ilog2 r = k"
proof (rule ccontr)
  assume ne: "ilog2 r \<noteq> k"
  from ilog2_bounds [OF assms(1)]
  have b: "pow2 (ilog2 r) \<le> r" "r < pow2 (ilog2 r + 1)" by simp_all
  show False
  proof (cases "ilog2 r < k")
    case True
    then have "pow2 (ilog2 r + 1) \<le> pow2 k" by (simp add: pow2_mono)
    with b(2) assms(2) show False by simp
  next
    case False
    with ne have "k + 1 \<le> ilog2 r" by simp
    then have "pow2 (k + 1) \<le> pow2 (ilog2 r)" by (rule pow2_mono)
    with b(1) assms(3) show False by simp
  qed
qed

lemma round_half_even_le:
  "q \<le> of_int n \<Longrightarrow> round_half_even q \<le> n"
proof -
  assume a: "q \<le> of_int n"
  have f: "\<lfloor>q\<rfloor> \<le> n" using a by (simp add: floor_le_iff)
  show ?thesis
  proof (cases "q = of_int \<lfloor>q\<rfloor>")
    case True
    then have "q - of_int \<lfloor>q\<rfloor> = 0" by simp
    then show ?thesis using f by (simp add: round_half_even_def Let_def)
  next
    case False
    then have "of_int \<lfloor>q\<rfloor> < q" using of_int_floor_le [of q] by linarith
    with a have "(of_int \<lfloor>q\<rfloor> :: rat) < of_int n" by simp
    then have "\<lfloor>q\<rfloor> < n" by (simp only: of_int_less_iff)
    then show ?thesis by (simp add: round_half_even_def Let_def)
  qed
qed

lemma round_half_even_ge:
  "of_int n \<le> q \<Longrightarrow> n \<le> round_half_even q"
proof -
  assume "of_int n \<le> q"
  then have "n \<le> \<lfloor>q\<rfloor>" by (simp add: le_floor_iff)
  then show ?thesis by (simp add: round_half_even_def Let_def)
qed

lemma round_half_even_of_int [simp]: "round_half_even (of_int n) = n"
  by (simp add: round_half_even_def Let_def)

lemma ilog2_le:
  assumes "0 < r" and "r < pow2 k"
  shows "ilog2 r < k"
proof (rule ccontr)
  assume "\<not> ilog2 r < k"
  then have "pow2 k \<le> pow2 (ilog2 r)" by (simp add: pow2_mono)
  with ilog2_bounds [OF assms(1)] assms(2) show False by simp
qed

lemma f64_round_le_10:
  assumes "0 \<le> r" and "r \<le> 10"
  shows "\<exists>v. f64_round False r = Finite v \<and> 0 \<le> v \<and> v \<le> 10"
proof (cases "r = 0")
  case True
  then show ?thesis by (simp add: f64_round_def f64_zero_def)
next
  case False
  with assms have pos: "0 < r" by simp
  define e where "e = max (- 1074) (ilog2 r - 52)"
  define m where "m = round_half_even (r / pow2 e)"
  define v where "v = of_int m * pow2 e"
  have "r < pow2 4" using assms(2) by (simp add: pow2_def)
  then have "ilog2 r < 4" by (rule ilog2_le [OF pos])
  then have e: "e \<le> 0" by (simp add: e_def)
  have N: "of_int (10 * 2 ^ nat (- e)) = 10 / pow2 e"
    using e by (simp add: pow2_def)
  have "r / pow2 e \<le> 10 / pow2 e"
    using assms(2) by (simp add: divide_right_mono less_imp_le)
  then have "r / pow2 e \<le> of_int (10 * 2 ^ nat (- e))"
    by (simp only: N)
  then have mle: "m \<le> 10 * 2 ^ nat (- e)"
    unfolding m_def by (rule round_half_even_le)
  have "of_int 0 \<le> r / pow2 e"
    using assms(1) by (simp add: less_imp_le)
  then have mge: "0 \<le> m"
    unfolding m_def by (rule round_half_even_ge)
  have "(of_int m :: rat) \<le> of_int (10 * 2 ^ nat (- e))"
    using mle by (simp only: of_int_le_iff)
  then have "of_int m \<le> 10 / pow2 e"
    by (simp only: N)
  then have v10: "v \<le> 10"
    by (simp add: v_def pos_le_divide_eq)
  have v0: "0 \<le> v"
    using mge by (simp add: v_def less_imp_le)
  have "(10 :: rat) < pow2 1024"
  proof -
    have "(10 :: rat) < pow2 4" by (simp add: pow2_def)
    also have "\<dots> \<le> pow2 1024" by (rule pow2_mono) simp
    finally show ?thesis .
  qed
  with v10 have fin: "\<not> pow2 1024 \<le> v" by simp
  have "f64_round False r = (if m = 0 then Finite 0 else Finite v)"
    using pos fin
    by (simp add: f64_round_def Let_def e_def [symmetric] m_def [symmetric] v_def [symmetric]
        f64_zero_def)
  with v0 v10 show ?thesis by auto
qed

lemma f64_mul_10_unit:
  assumes "f64_in_unit c"
  shows "f64_mul c (Finite 10) = NegZero \<or>
         (\<exists>v. f64_mul c (Finite 10) = Finite v \<and> 0 \<le> v \<and> v \<le> 10)"
proof (cases c)
  case (Finite q)
  with assms have q: "0 \<le> q" "q \<le> 1" by (simp_all add: f64_in_unit_def)
  then have "f64_mul c (Finite 10) = f64_round False (q * 10)"
    using Finite by (simp add: f64_mul_def)
  moreover have "\<exists>v. f64_round False (q * 10) = Finite v \<and> 0 \<le> v \<and> v \<le> 10"
    using q by (intro f64_round_le_10) simp_all
  ultimately show ?thesis by simp
next
  case NegZero
  then show ?thesis by (simp add: f64_mul_def f64_round_def f64_zero_def)
qed (use assms in \<open>simp_all add: f64_in_unit_def\<close>)

lemma go_int_small:
  assumes "0 \<le> v" and "v \<le> 10"
  shows "go_int impl (Finite v) = \<lfloor>v\<rfloor>" and "0 \<le> \<lfloor>v\<rfloor>" and "\<lfloor>v\<rfloor> \<le> 10"
proof -
  show 0: "0 \<le> \<lfloor>v\<rfloor>" using assms(1) by simp
  show 10: "\<lfloor>v\<rfloor> \<le> 10" using assms(2) by (simp add: floor_le_iff)
  from 0 10 show "go_int impl (Finite v) = \<lfloor>v\<rfloor>"
    using assms(1) by (simp add: go_int_def trunc_rat_def Let_def)
qed

lemma bar_loop_blocks:
  "0 \<le> i \<Longrightarrow> i \<le> 10 \<Longrightarrow>
     bar_loop i filled bar =
       bar @ concat (replicate (nat (min 10 filled - i)) block_full)
           @ concat (replicate (nat (10 - max i filled)) block_light)"
proof (induction i filled bar rule: bar_loop.induct)
  case (1 i filled bar)
  show ?case
  proof (cases "i < 10")
    case False
    with "1.prems" have "i = 10" by simp
    then show ?thesis by (simp add: bar_loop.simps)
  next
    case True
    note IH = "1.IH" [OF True]
    show ?thesis
    proof (cases "i < filled")
      case f: True
      have a: "nat (min 10 filled - i) = Suc (nat (min 10 filled - (i + 1)))"
        using True f by simp
      have b: "max (i + 1) filled = max i filled"
        using f by simp
      have "bar_loop i filled bar = bar_loop (i + 1) filled (bar @ block_full)"
        using True f by (simp add: bar_loop.simps [of i])
      also have "\<dots> = (bar @ block_full)
           @ concat (replicate (nat (min 10 filled - (i + 1))) block_full)
           @ concat (replicate (nat (10 - max (i + 1) filled)) block_light)"
        using IH "1.prems" True f by simp
      finally show ?thesis
        by (simp add: a b)
    next
      case f: False
      have a: "nat (min 10 filled - i) = 0" "nat (min 10 filled - (i + 1)) = 0"
        using f by simp_all
      have b: "nat (10 - max i filled) = Suc (nat (10 - max (i + 1) filled))"
        using True f by simp
      have "bar_loop i filled bar = bar_loop (i + 1) filled (bar @ block_light)"
        using True f by (simp add: bar_loop.simps [of i])
      also have "\<dots> = (bar @ block_light)
           @ concat (replicate (nat (min 10 filled - (i + 1))) block_full)
           @ concat (replicate (nat (10 - max (i + 1) filled)) block_light)"
        using IH "1.prems" True f by simp
      finally show ?thesis
        by (simp add: a b)
    qed
  qed
qed

lemma confidence_bar_blocks:
  assumes "f64_in_unit c"
  shows "nat \<lfloor>f64_val (f64_mul c (Finite 10))\<rfloor> \<le> 10 \<and>
     confidence_bar impl c =
       concat (replicate (nat \<lfloor>f64_val (f64_mul c (Finite 10))\<rfloor>) block_full) @
       concat (replicate (10 - nat \<lfloor>f64_val (f64_mul c (Finite 10))\<rfloor>) block_light)"
proof -
  from f64_mul_10_unit [OF assms]
  consider "f64_mul c (Finite 10) = NegZero"
    | v where "f64_mul c (Finite 10) = Finite v" "0 \<le> v" "v \<le> 10"
    by blast
  then show ?thesis
  proof cases
    case 1
    then show ?thesis
      by (simp add: confidence_bar_def go_int_def bar_loop_blocks)
  next
    case 2
    define k where "k = \<lfloor>v\<rfloor>"
    have k: "0 \<le> k" "k \<le> 10" and g: "go_int impl (Finite v) = k"
      unfolding k_def using go_int_small [OF 2(2,3)] by simp_all
    have "nat (10 - max 0 k) = 10 - nat k" "nat (min 10 k - 0) = nat k" "nat k \<le> 10"
      using k by simp_all
    then show ?thesis
      using 2(1) k by (simp add: confidence_bar_def g bar_loop_blocks k_def [symmetric])
  qed
qed

lemma f64_const_0_7: "f64_of_rat (7 / 10) = Finite (6305039478318694 / 2 ^ 53)"
  by code_simp

lemma f64_sample_products:
  "f64_mul (Finite (3 / 4)) (Finite 10) = Finite (15 / 2)"
  "f64_mul (Finite (3 / 4)) (Finite 100) = Finite 75"
  "is_float64 (Finite (3 / 4))"
  by code_simp+

lemma f64_round_fixed_point:
  assumes "0 < q" and "f64_round False q = Finite q" and "pow2 k \<le> q" and "q < pow2 (k + 1)"
    and "- 1022 \<le> k"
  shows "\<exists>m. q = of_int m * pow2 (k - 52)"
proof -
  have l: "ilog2 q = k"
    using assms(1,3,4) by (rule ilog2_unique)
  have e: "max (- 1074) (ilog2 q - 52) = k - 52"
    using assms(5) by (simp add: l)
  define m where "m = round_half_even (q / pow2 (k - 52))"
  have "f64_round False q =
     (if pow2 1024 \<le> of_int m * pow2 (k - 52) then PosInf
      else if m = 0 then Finite 0 else Finite (of_int m * pow2 (k - 52)))"
    using assms(1) by (simp add: f64_round_def e Let_def m_def f64_zero_def f64_inf_def)
  with assms(1,2) have "q = of_int m * pow2 (k - 52)"
    by (auto split: if_splits)
  then show ?thesis ..
qed

lemma no_float64_between:
  assumes "is_float64 (Finite q)" and "6305039478318694 / 2 ^ 53 < q"
  shows "7 / 10 < q"
proof (rule ccontr)
  assume "\<not> 7 / 10 < q"
  then have hi: "q \<le> 7 / 10" by simp
  from assms(2) have pos: "0 < q"
    by (rule less_trans [rotated]) simp
  from assms(1) pos have fixed: "f64_round False q = Finite q"
    by (simp add: is_float64_def f64_of_rat_def)
  have "pow2 (- 1) \<le> q"
    using assms(2) by (simp add: pow2_def)
  moreover have "q < pow2 (- 1 + 1)"
    using hi by (simp add: pow2_def)
  ultimately obtain m where m: "q = of_int m * pow2 (- 1 - 52)"
    using f64_round_fixed_point [OF pos fixed, of "- 1"] by auto
  then have q: "q = of_int m / 2 ^ 53"
    by (simp add: pow2_def)
  from assms(2) have "(of_int 6305039478318694 :: rat) < of_int m"
    unfolding q by (simp add: divide_less_cancel)
  then have lo: "6305039478318694 < m"
    by (simp only: of_int_less_iff)
  from hi have "(of_int (10 * m) :: rat) \<le> of_int (7 * 2 ^ 53)"
    unfolding q by (simp add: field_simps)
  then have "10 * m \<le> 7 * 2 ^ 53"
    by (simp only: of_int_le_iff)
  with lo show False by simp
qed

lemma gt_0_7_exact:
  assumes "is_float64 c"
  shows "f64_gt c (f64_of_rat (7 / 10)) = f64_above c (7 / 10)"
proof (cases c)
  case (Finite q)
  have "(6305039478318694 / 2 ^ 53 < q) = (7 / 10 < q)"
  proof
    assume "6305039478318694 / 2 ^ 53 < q"
    with assms Finite show "7 / 10 < q"
      using no_float64_between by simp
  next
    assume "7 / 10 < q"
    then show "6305039478318694 / 2 ^ 53 < q"
      by (rule less_trans [rotated]) simp
  qed
  then show ?thesis
    using Finite by (simp add: f64_gt_def f64_const_0_7 f64_above_def)
qed (simp_all add: f64_gt_def f64_const_0_7 f64_above_def)

lemma round_half_even_error: "\<bar>of_int (round_half_even x) - x\<bar> \<le> 1 / 2"
proof -
  have "of_int \<lfloor>x\<rfloor> \<le> x" "x < of_int \<lfloor>x\<rfloor> + 1"
    by linarith+
  then show ?thesis
    by (auto simp: round_half_even_def Let_def abs_le_iff)
qed

lemma f64_round_near:
  assumes "0 \<le> x" and "x \<le> 10"
  shows "\<exists>v. f64_round False x = Finite v \<and> \<bar>v - x\<bar> \<le> 1 / 2 ^ 50 \<and>
           of_int \<lfloor>x\<rfloor> \<le> v \<and> v \<le> of_int \<lceil>x\<rceil>"
proof (cases "x = 0")
  case True
  then show ?thesis by (simp add: f64_round_def f64_zero_def)
next
  case False
  with assms have pos: "0 < x" by simp
  define e where "e = max (- 1074) (ilog2 x - 52)"
  define m where "m = round_half_even (x / pow2 e)"
  define v where "v = of_int m * pow2 e"
  have "x < pow2 4" using assms(2) by (simp add: pow2_def)
  then have "ilog2 x < 4" by (rule ilog2_le [OF pos])
  then have e: "e \<le> - 49" by (simp add: e_def)
  have scale: "of_int (n * 2 ^ nat (- e)) = of_int n / pow2 e" for n
    using e by (simp add: pow2_def)
  have "\<bar>v - x\<bar> = \<bar>of_int m - x / pow2 e\<bar> * pow2 e"
  proof -
    have "pow2 e \<noteq> 0"
      by (simp add: pow2_def)
    then have "v - x = (of_int m - x / pow2 e) * pow2 e"
      by (simp add: v_def left_diff_distrib)
    then show ?thesis
      by (simp add: abs_mult less_imp_le)
  qed
  also have "\<dots> \<le> (1 / 2) * pow2 e"
    unfolding m_def
    by (intro mult_right_mono round_half_even_error) (simp add: less_imp_le)
  also have "\<dots> \<le> (1 / 2) * pow2 (- 49)"
    using pow2_mono [OF e] by simp
  also have "\<dots> = 1 / 2 ^ 50"
    by (simp add: pow2_def)
  finally have near: "\<bar>v - x\<bar> \<le> 1 / 2 ^ 50" .
  have "of_int (\<lfloor>x\<rfloor> * 2 ^ nat (- e)) \<le> x / pow2 e"
    unfolding scale by (simp add: divide_right_mono less_imp_le)
  then have "\<lfloor>x\<rfloor> * 2 ^ nat (- e) \<le> m"
    unfolding m_def by (rule round_half_even_ge)
  then have "(of_int (\<lfloor>x\<rfloor> * 2 ^ nat (- e)) :: rat) \<le> of_int m"
    by (simp only: of_int_le_iff)
  then have lo: "of_int \<lfloor>x\<rfloor> \<le> v"
    unfolding scale by (simp add: v_def pos_divide_le_eq)
  have "x / pow2 e \<le> of_int (\<lceil>x\<rceil> * 2 ^ nat (- e))"
    unfolding scale by (simp add: divide_right_mono less_imp_le)
  then have "m \<le> \<lceil>x\<rceil> * 2 ^ nat (- e)"
    unfolding m_def by (rule round_half_even_le)
  then have "(of_int m :: rat) \<le> of_int (\<lceil>x\<rceil> * 2 ^ nat (- e))"
    by (simp only: of_int_le_iff)
  then have hi: "v \<le> of_int \<lceil>x\<rceil>"
    unfolding scale by (simp add: v_def pos_le_divide_eq)
  from f64_round_le_10 [OF assms] obtain u where u: "f64_round False x = Finite u"
    by blast
  have "f64_round False x = (if pow2 1024 \<le> v then PosInf else if m = 0 then Finite 0 else Finite v)"
    using pos
    by (simp add: f64_round_def Let_def e_def [symmetric] m_def [symmetric] v_def [symmetric]
        f64_zero_def f64_inf_def)
  with u have "f64_round False x = Finite v"
    by (auto simp: v_def split: if_splits)
  with near lo hi show ?thesis by blast
qed

lemma f64_mul_10_near:
  assumes "f64_in_unit c"
  shows "\<bar>f64_val (f64_mul c (Finite 10)) - f64_val c * 10\<bar> \<le> 1 / 2 ^ 50 \<and>
         of_int \<lfloor>f64_val c * 10\<rfloor> \<le> f64_val (f64_mul c (Finite 10)) \<and>
         f64_val (f64_mul c (Finite 10)) \<le> of_int \<lceil>f64_val c * 10\<rceil>"
proof (cases c)
  case (Finite q)
  with assms have q: "0 \<le> q" "q \<le> 1" by (simp_all add: f64_in_unit_def)
  then have "f64_mul c (Finite 10) = f64_round False (q * 10)"
    using Finite by (simp add: f64_mul_def)
  moreover have "\<exists>v. f64_round False (q * 10) = Finite v \<and> \<bar>v - q * 10\<bar> \<le> 1 / 2 ^ 50 \<and>
           of_int \<lfloor>q * 10\<rfloor> \<le> v \<and> v \<le> of_int \<lceil>q * 10\<rceil>"
    using q by (intro f64_round_near) simp_all
  ultimately show ?thesis using Finite by auto
next
  case NegZero
  then show ?thesis by (simp add: f64_mul_def f64_round_def f64_zero_def)
qed (use assms in \<open>simp_all add: f64_in_unit_def\<close>)

lemma floor_of_rounded:
  fixes v x d :: rat
  assumes "\<bar>v - x\<bar> \<le> d" and "of_int \<lfloor>x\<rfloor> \<le> v" and "v \<le> of_int \<lceil>x\<rceil>"
  shows "\<lfloor>x\<rfloor> \<le> \<lfloor>v\<rfloor>" and "\<lfloor>v\<rfloor> \<le> \<lceil>x\<rceil>"
    and "x + d < of_int \<lfloor>x\<rfloor> + 1 \<Longrightarrow> \<lfloor>v\<rfloor> = \<lfloor>x\<rfloor>"
proof -
  show lo: "\<lfloor>x\<rfloor> \<le> \<lfloor>v\<rfloor>"
    using assms(2) by (simp add: le_floor_iff)
  show "\<lfloor>v\<rfloor> \<le> \<lceil>x\<rceil>"
    using assms(3) by (simp add: floor_le_iff)
  assume "x + d < of_int \<lfloor>x\<rfloor> + 1"
  moreover have "v \<le> x + d"
    using assms(1) by linarith
  ultimately have "v < of_int (\<lfloor>x\<rfloor> + 1)" by simp
  then have "\<lfloor>v\<rfloor> < \<lfloor>x\<rfloor> + 1"
    by (simp only: floor_less_iff)
  with lo show "\<lfloor>v\<rfloor> = \<lfloor>x\<rfloor>" by simp
qed

section \<open>The parts of the card\<close>

lemma range_loop_take:
  "range_loop i es response =
     response @ concat (map (\<lambda>e. bullet @ '' '' @ e @ nl) (take (3 - i) es))"
proof (induction es arbitrary: i response)
  case Nil
  then show ?case by simp
next
  case (Cons e es)
  show ?case
  proof (cases "3 \<le> i")
    case True
    then show ?thesis by simp
  next
    case False
    then have "3 - i = Suc (3 - (i + 1))" by simp
    with False Cons [of "i + 1"] show ?thesis by simp
  qed
qed

lemma bullet_section_take:
  "(if 0 < length es then range_loop 0 es (response @ nl @ title @ nl) else response) =
     response @ bullet_section title (take 3 es)"
  by (cases es) (simp_all add: range_loop_take bullet_section_def)

lemma formatResponse_parts:
  "formatResponse impl r =
     card_head impl r @ bullet_section ''*Evidence:*'' (take 3 (Evidence r))
       @ bullet_section ''*Sources:*'' (take 3 (SourcesChecked r)) @ card_tail r"
  unfolding formatResponse_def Let_def bullet_section_take
  by (simp add: card_head_def card_tail_def split: prod.splits)

section \<open>Evidence and sources\<close>

text \<open>
  C5. The card is its head, the evidence section, the sources section and its tail,
  where each section lists the first three items of its list and no more; the head and
  the tail do not depend on the two lists. So at most three evidence bullets and at
  most three source bullets are displayed, and cutting the lists to three items
  beforehand changes nothing.
\<close>

theorem lists_cut_to_three:
  "formatResponse impl r =
     card_head impl r @ bullet_section ''*Evidence:*'' (take 3 (Evidence r))
       @ bullet_section ''*Sources:*'' (take 3 (SourcesChecked r)) @ card_tail r \<and>
   length (take 3 (Evidence r)) \<le> 3 \<and> length (take 3 (SourcesChecked r)) \<le> 3 \<and>
   formatResponse impl r =
     formatResponse impl (r\<lparr>Evidence := take 3 (Evidence r),
                             SourcesChecked := take 3 (SourcesChecked r)\<rparr>)"
proof -
  let ?r = "r\<lparr>Evidence := take 3 (Evidence r), SourcesChecked := take 3 (SourcesChecked r)\<rparr>"
  have "card_head impl ?r = card_head impl r" "card_tail ?r = card_tail r"
    by (simp_all add: card_head_def card_tail_def verdict_label_def)
  then have "formatResponse impl ?r = formatResponse impl r"
    by (simp add: formatResponse_parts)
  then show ?thesis
    by (simp add: formatResponse_parts)
qed

theorem lists_cut_to_three_witness:
  "length (Evidence (sample_response True)) = 4 \<and>
   formatResponse (\<lambda>x. 0) (sample_response True) =
     card_head (\<lambda>x. 0) (sample_response True)
     @ nl @ ''*Evidence:*'' @ nl
     @ bullet @ '' No trial is cited'' @ nl
     @ bullet @ '' The source is anonymous'' @ nl
     @ bullet @ '' The wording is alarmist'' @ nl
     @ nl @ ''*Sources:*'' @ nl
     @ bullet @ '' who.int'' @ nl
     @ card_tail (sample_response True)"
  using lists_cut_to_three [of "\<lambda>x. 0" "sample_response True", THEN conjunct1]
  by (simp add: sample_response_def bullet_section_def)

section \<open>The status line\<close>

text \<open>
  C10. The card opens with the emoji and the label of the verdict: the check mark and
  APPEARS CREDIBLE when \<open>is_misinformation\<close> is false; otherwise the siren and LIKELY
  MISINFORMATION when the confidence is strictly greater than 0.7, and the warning
  sign and POTENTIALLY MISLEADING when it is not. The source compares with the float64
  constant 0.7; for a float64 confidence that is the same as comparing with the
  rational 7/10.
\<close>

theorem status_follows_verdict:
  assumes "is_float64 (Confidence r)"
  shows "prefix
     (if \<not> IsMisinformation r then emoji_check @ '' *APPEARS CREDIBLE*''
      else if f64_above (Confidence r) (7 / 10) then emoji_siren @ '' *LIKELY MISINFORMATION*''
      else emoji_warning @ '' *POTENTIALLY MISLEADING*'')
     (formatResponse impl r)"
  unfolding formatResponse_parts card_head_def verdict_label_def gt_0_7_exact [OF assms]
  by simp

theorem status_follows_verdict_witness:
  "is_float64 (Confidence (sample_response True)) \<and>
   IsMisinformation (sample_response True) \<and>
   f64_above (Confidence (sample_response True)) (7 / 10) \<and>
   prefix (emoji_siren @ '' *LIKELY MISINFORMATION*'')
     (formatResponse (\<lambda>x. 0) (sample_response True))"
proof -
  have a: "is_float64 (Confidence (sample_response True))"
    by (simp add: sample_response_def f64_sample_products)
  have b: "IsMisinformation (sample_response True)"
    and c: "f64_above (Confidence (sample_response True)) (7 / 10)"
    by (simp_all add: sample_response_def f64_above_def)
  from status_follows_verdict [OF a, of "\<lambda>x. 0"] b c
  have "prefix (emoji_siren @ '' *LIKELY MISINFORMATION*'')
     (formatResponse (\<lambda>x. 0) (sample_response True))"
    by simp
  with a b c show ?thesis by simp
qed

section \<open>The confidence bar\<close>

lemma near_nine_tenths_facts:
  "f64_mul (f64_of_rat (3 / 10)) (Finite 3) = near_nine_tenths"
  "f64_mul near_nine_tenths (Finite 10) = Finite 9"
  "is_float64 near_nine_tenths"
  unfolding near_nine_tenths_def by code_simp+

text \<open>
  C3, as stated, fails when the product is taken exactly. The float64
  0.8999999999999999 (the product of 0.3 and 3 in float64) lies between 0 and 1, and
  ten times its value is less than 9 by \<open>1 / 2 ^ 50\<close>, so the floor of the exact product
  is 8; in float64 the product rounds to 9, and the bar has nine full blocks.
\<close>

theorem rounded_product_fills_nine:
  "f64_in_unit near_nine_tenths \<and> is_float64 near_nine_tenths \<and>
   \<lfloor>f64_val near_nine_tenths * 10\<rfloor> = 8 \<and>
   confidence_bar sample_int_conv near_nine_tenths =
     block_full @ block_full @ block_full @ block_full @ block_full @ block_full
     @ block_full @ block_full @ block_full @ block_light"
proof -
  have a: "f64_in_unit near_nine_tenths"
    by (simp add: near_nine_tenths_def f64_in_unit_def)
  have "\<lfloor>8106479329266892 / 2 ^ 53 * 10 :: rat\<rfloor> = 8"
    by (rule floor_unique) simp_all
  then have b: "\<lfloor>f64_val near_nine_tenths * 10\<rfloor> = 8"
    by (simp add: near_nine_tenths_def)
  have "\<lfloor>9 :: rat\<rfloor> = 9" by simp
  with confidence_bar_blocks [OF a, of sample_int_conv]
  have "confidence_bar sample_int_conv near_nine_tenths =
     concat (replicate 9 block_full) @ concat (replicate (10 - 9) block_light)"
    by (simp add: near_nine_tenths_facts)
  then have c: "confidence_bar sample_int_conv near_nine_tenths =
     block_full @ block_full @ block_full @ block_full @ block_full @ block_full
     @ block_full @ block_full @ block_full @ block_light"
    by (simp add: numeral_eq_Suc)
  from a near_nine_tenths_facts(3) b c show ?thesis by simp
qed

text \<open>
  C3, amended. For a confidence between 0 and 1 the bar of the card is ten blocks:
  first \<open>k\<close> full blocks, then \<open>10 - k\<close> light ones, where \<open>k\<close> is the floor of the
  product of the confidence and 10 as float64 computes it. That product differs from
  the exact one by at most \<open>1 / 2 ^ 50\<close> and does not cross an integer: \<open>k\<close> lies
  between the floor and the ceiling of the exact product, and it is the floor of the
  exact product unless that product is within \<open>1 / 2 ^ 50\<close> of the next integer. The
  bar stands between the brackets of the confidence line, right after the status line.
\<close>

theorem confidence_bar_floor_of_rounded_product:
  fixes impl r
  defines "q \<equiv> f64_val (Confidence r)"
  defines "p \<equiv> f64_val (f64_mul (Confidence r) (Finite 10))"
  defines "k \<equiv> nat \<lfloor>p\<rfloor>"
  defines "blocks \<equiv> concat (replicate k block_full) @ concat (replicate (10 - k) block_light)"
  assumes unit: "f64_in_unit (Confidence r)"
  shows "k \<le> 10 \<and> k + (10 - k) = 10 \<and>
         confidence_bar impl (Confidence r) = blocks \<and>
         (\<exists>post. formatResponse impl r =
            fst (verdict_label r) @ '' *'' @ snd (verdict_label r) @ ''*'' @ nl @ nl
            @ ''*Confidence:* ['' @ blocks @ ''] '' @ post) \<and>
         \<bar>p - q * 10\<bar> \<le> 1 / 2 ^ 50 \<and>
         \<lfloor>q * 10\<rfloor> \<le> int k \<and> int k \<le> \<lceil>q * 10\<rceil> \<and>
         (q * 10 + 1 / 2 ^ 50 < of_int \<lfloor>q * 10\<rfloor> + 1 \<longrightarrow> int k = \<lfloor>q * 10\<rfloor>)"
proof -
  from confidence_bar_blocks [OF unit, of impl]
  have k: "k \<le> 10" and bar: "confidence_bar impl (Confidence r) = blocks"
    by (simp_all add: k_def p_def blocks_def)
  have "formatResponse impl r =
      fst (verdict_label r) @ '' *'' @ snd (verdict_label r) @ ''*'' @ nl @ nl
      @ ''*Confidence:* ['' @ blocks @ ''] ''
      @ (fmt_f0 (f64_mul (Confidence r) (Finite 100)) @ ''%'' @ nl
         @ (if Summary r = [] then [] else nl @ ''*Summary:*'' @ nl @ Summary r @ nl)
         @ bullet_section ''*Evidence:*'' (take 3 (Evidence r))
         @ bullet_section ''*Sources:*'' (take 3 (SourcesChecked r)) @ card_tail r)"
    by (simp add: formatResponse_parts card_head_def bar)
  then have card: "\<exists>post. formatResponse impl r =
            fst (verdict_label r) @ '' *'' @ snd (verdict_label r) @ ''*'' @ nl @ nl
            @ ''*Confidence:* ['' @ blocks @ ''] '' @ post" ..
  from f64_mul_10_near [OF unit]
  have near: "\<bar>p - q * 10\<bar> \<le> 1 / 2 ^ 50"
    and lo: "of_int \<lfloor>q * 10\<rfloor> \<le> p" and hi: "p \<le> of_int \<lceil>q * 10\<rceil>"
    by (simp_all add: p_def q_def)
  have "0 \<le> q"
    using unit by (cases "Confidence r") (simp_all add: q_def f64_in_unit_def)
  then have "0 \<le> \<lfloor>q * 10\<rfloor>" by simp
  moreover note fl = floor_of_rounded [OF near lo hi]
  ultimately have "0 \<le> \<lfloor>p\<rfloor>" using fl(1) by linarith
  then have ik: "int k = \<lfloor>p\<rfloor>" by (simp add: k_def)
  from card k bar near fl show ?thesis
    unfolding ik by simp
qed

theorem confidence_bar_floor_of_rounded_product_witness:
  "f64_in_unit (Confidence (sample_response True)) \<and>
   f64_val (Confidence (sample_response True)) * 10 + 1 / 2 ^ 50
     < of_int \<lfloor>f64_val (Confidence (sample_response True)) * 10\<rfloor> + 1 \<and>
   \<lfloor>f64_val (Confidence (sample_response True)) * 10\<rfloor> = 7 \<and>
   confidence_bar sample_int_conv (Confidence (sample_response True)) =
     block_full @ block_full @ block_full @ block_full @ block_full @ block_full @ block_full
     @ block_light @ block_light @ block_light"
proof -
  let ?c = "Confidence (sample_response True)"
  let ?k = "nat \<lfloor>f64_val (f64_mul ?c (Finite 10))\<rfloor>"
  have a: "f64_in_unit ?c"
    by (simp add: sample_response_def f64_in_unit_def)
  have "\<lfloor>3 / 4 * 10 :: rat\<rfloor> = 7"
    by (rule floor_unique) simp_all
  then have b: "\<lfloor>f64_val ?c * 10\<rfloor> = 7"
    by (simp add: sample_response_def)
  have c: "f64_val ?c * 10 + 1 / 2 ^ 50 < of_int \<lfloor>f64_val ?c * 10\<rfloor> + 1"
    unfolding b by (simp add: sample_response_def)
  note t = confidence_bar_floor_of_rounded_product [OF a, of sample_int_conv]
  from t c have "int ?k = \<lfloor>f64_val ?c * 10\<rfloor>"
    by blast
  then have "int ?k = 7" by (simp only: b)
  then have k: "?k = 7" by linarith
  from t have "confidence_bar sample_int_conv ?c =
     concat (replicate ?k block_full) @ concat (replicate (10 - ?k) block_light)"
    by blast
  then have "confidence_bar sample_int_conv ?c =
     block_full @ block_full @ block_full @ block_full @ block_full @ block_full @ block_full
     @ block_light @ block_light @ block_light"
    unfolding k by (simp add: numeral_eq_Suc)
  with a b c show ?thesis by simp
qed

text \<open>
  The float64 nearest to 0.7 is a little less than 7/10, and its product with 10 rounds
  to 7: the bar of a response with confidence 0.7 has seven full blocks.
\<close>

lemma bar_at_0_7:
  "f64_mul (f64_of_rat (7 / 10)) (Finite 10) = Finite 7"
  "confidence_bar impl (f64_of_rat (7 / 10)) =
     concat (replicate 7 block_full) @ concat (replicate 3 block_light)"
proof -
  show p: "f64_mul (f64_of_rat (7 / 10)) (Finite 10) = Finite 7"
    by code_simp
  have "f64_in_unit (f64_of_rat (7 / 10))"
    by (simp add: f64_const_0_7 f64_in_unit_def)
  from confidence_bar_blocks [OF this, of impl]
  show "confidence_bar impl (f64_of_rat (7 / 10)) =
     concat (replicate 7 block_full) @ concat (replicate 3 block_light)"
    by (simp add: p)
qed

end
